theory Spec2Isabelle
  imports Complex_Main "HOL-Library.Multiset" "HOL-Library.Product_Lexorder" "HOL-Library.List_Lexorder"
begin

section \<open>The query engine of libre/apps/data_drivers/query.py\<close>

text \<open>
  A shallow embedding of \<^verbatim>\<open>query.py\<close>: the parameter parser
  (\<^verbatim>\<open>parse_parameters\<close>), the filter compiler
  (\<^verbatim>\<open>get_filter_functions_map\<close>) and the methods of the class
  \<^verbatim>\<open>Query\<close>. Exceptions are values of the type \<open>exn\<close>; a function that can
  raise returns \<open>exn + 'a\<close>, with \<open>Inl\<close> the exception. Generators are the lists of the
  values they yield.
\<close>

subsection \<open>Values, exceptions and results\<close>

text \<open>
  A float is NaN, an infinity or a finite number, and a finite float is given by its value,
  a rational number. The engine only compares floats and uses them as dictionary keys; it
  does no arithmetic on them.
\<close>

datatype pyfloat = NaN | NegInf | PosInf | Finite rat

datatype pyval =
    PNone
  | PBool bool
  | PInt int
  | PFloat pyfloat
  | PStr string
  | PList "pyval list"
  | PDict "(string \<times> pyval) list"

datatype exn =
    Http400 string
  | KeyError
  | AttributeError
  | TypeError
  | IndexError
  | ValueError
  | OtherError string

datatype join_type = JOIN_TYPE_AND | JOIN_TYPE_OR

text \<open>The two aggregate classes the parser instantiates, each with its argument list.\<close>

datatype aggregate_function = Count "string list" | Sum "string list"

text \<open>
  What \<^verbatim>\<open>execute\<close> returns: a row sequence, the dictionary of
  \<^verbatim>\<open>process_groups\<close> (group field, then key value, then rows), the flat
  dictionary of aggregates, or the nested one. A Python dictionary is an association list
  read with the first binding of a key; \<open>dict_set\<close> below is the item assignment.
\<close>

datatype result =
    Rows "pyval list"
  | Grouped "(string \<times> (pyval \<times> pyval list) list) list"
  | Aggregated "(string \<times> pyval) list"
  | GroupAggregated "(string \<times> (pyval \<times> (string \<times> pyval) list) list) list"

type_synonym parameters = "(string \<times> string) list"

subsection \<open>Python string and sequence operations\<close>

definition startswith :: "string \<Rightarrow> string \<Rightarrow> bool" where
  "startswith s p = (take (length p) s = p)"

text \<open>\<^verbatim>\<open>sub in s\<close> on strings.\<close>

fun py_in :: "string \<Rightarrow> string \<Rightarrow> bool" where
  "py_in sub [] = (sub = [])"
| "py_in sub (c # cs) = (startswith (c # cs) sub \<or> py_in sub cs)"

text \<open>
  \<^verbatim>\<open>s.split(sep)\<close> for a non-empty separator: the pieces between the
  non-overlapping occurrences of \<open>sep\<close>, found from the left. \<open>acc\<close> is the current
  piece, reversed. (Python raises ValueError on an empty separator; the source only splits on
  literals, and here an empty separator never matches.)
\<close>

function split_aux :: "string \<Rightarrow> string \<Rightarrow> string \<Rightarrow> string list" where
  "split_aux sep acc [] = [rev acc]"
| "split_aux sep acc (c # cs) =
     (if sep \<noteq> [] \<and> startswith (c # cs) sep
      then rev acc # split_aux sep [] (drop (length sep) (c # cs))
      else split_aux sep (c # acc) cs)"
  by pat_completeness auto
termination
  by (relation "measure (\<lambda>(sep, acc, s). length s)") auto

definition py_split :: "string \<Rightarrow> string \<Rightarrow> string list" where
  "py_split sep s = split_aux sep [] s"

fun py_join :: "string \<Rightarrow> string list \<Rightarrow> string" where
  "py_join new [] = []"
| "py_join new [p] = p"
| "py_join new (p # q # ps) = p @ new @ py_join new (q # ps)"

text \<open>\<^verbatim>\<open>s.replace(old, new)\<close> for a non-empty \<open>old\<close>.\<close>

definition py_replace :: "string \<Rightarrow> string \<Rightarrow> string \<Rightarrow> string" where
  "py_replace old new s = py_join new (py_split old s)"

definition is_space :: "char \<Rightarrow> bool" where
  "is_space c = (c \<in> set [CHR '' '', CHR 0x09, CHR 0x0A, CHR 0x0B, CHR 0x0C, CHR 0x0D])"

definition py_strip :: "string \<Rightarrow> string" where
  "py_strip s = rev (dropWhile is_space (rev (dropWhile is_space s)))"

definition upper_char :: "char \<Rightarrow> char" where
  "upper_char c =
     (case map_of (zip ''abcdefghijklmnopqrstuvwxyz'' ''ABCDEFGHIJKLMNOPQRSTUVWXYZ'') c of
        None \<Rightarrow> c | Some u \<Rightarrow> u)"

definition py_upper :: "string \<Rightarrow> string" where
  "py_upper s = map upper_char s"

text \<open>
  \<^verbatim>\<open>xs[start:stop]\<close> with Python's treatment of negative and out-of-range
  bounds.
\<close>

definition slice_bound :: "nat \<Rightarrow> int \<Rightarrow> nat" where
  "slice_bound n i = (if i < 0 then nat (max (i + int n) 0) else min (nat i) n)"

definition py_slice :: "'a list \<Rightarrow> int \<Rightarrow> int \<Rightarrow> 'a list" where
  "py_slice xs start stop =
     (let a = slice_bound (length xs) start; b = slice_bound (length xs) stop
      in take (b - a) (drop a xs))"

text \<open>Item assignment \<^verbatim>\<open>d[k] = v\<close> on a dictionary whose keys are strings.\<close>

fun dict_set :: "string \<Rightarrow> 'v \<Rightarrow> (string \<times> 'v) list \<Rightarrow> (string \<times> 'v) list" where
  "dict_set k v [] = [(k, v)]"
| "dict_set k v ((k', v') # d) = (if k' = k then (k', v) # d else (k', v') # dict_set k v d)"

subsection \<open>Collaborators that are not part of query.py\<close>

text \<open>
  Modelled from the spec: the constants \<^verbatim>\<open>LQL_DELIMITER\<close> and
  \<^verbatim>\<open>DOUBLE_DELIMITER\<close> of \<^verbatim>\<open>literals.py\<close>, which is not among
  the sources. The spec's parameter grammar writes directives as \<^verbatim>\<open>_join\<close>,
  \<^verbatim>\<open>_fields\<close> and operators as \<^verbatim>\<open>field__op\<close>.
\<close>

definition LQL_DELIMITER :: string where
  "LQL_DELIMITER = ''_''"

definition DOUBLE_DELIMITER :: string where
  "DOUBLE_DELIMITER = ''__''"

text \<open>
  The other imports of the module are parameters of the model, collected in a record:
  \<^item> \<open>parse_value\<close>: \<^verbatim>\<open>utils.parse_value\<close>, the value coercion;
  \<^item> \<open>FILTER_NAMES\<close>, \<open>FILTER_CLASS_MAP\<close>: the two registries of
    \<^verbatim>\<open>filters.py\<close>; a filter class applied to a field and a value gives the
    predicate \<^verbatim>\<open>evaluate\<close>;
  \<^item> \<open>shape\<close>: \<^verbatim>\<open>geometry.shape(value)\<close> followed by the attribute named
    by the path segment;
  \<^item> \<open>Sum_execute\<close>: \<^verbatim>\<open>Sum(args).execute(rows)\<close>;
  \<^item> \<open>jsonq_query\<close>: \<^verbatim>\<open>JSONq(data).query(field_query, do_filter=True)\<close>;
  \<^item> \<open>set_iter\<close>: the order in which the runtime iterates a set of positions
    (\<^verbatim>\<open>list(query_results)\<close>), which the language leaves open.
\<close>

record env =
  parse_value :: "string \<Rightarrow> exn + pyval"
  FILTER_NAMES :: "string \<Rightarrow> nat option"
  FILTER_CLASS_MAP :: "nat \<Rightarrow> (string \<Rightarrow> pyval \<Rightarrow> pyval \<Rightarrow> bool) option"
  shape :: "string \<Rightarrow> pyval \<Rightarrow> exn + pyval"
  Sum_execute :: "string list \<Rightarrow> pyval list \<Rightarrow> exn + pyval"
  jsonq_query :: "string list \<Rightarrow> result \<Rightarrow> exn + result"
  set_iter :: "nat set \<Rightarrow> nat list"

subsection \<open>parse_parameters\<close>

record filter_spec =
  field :: string
  filter_name :: string
  fvalue :: pyval

record aggregate_spec =
  name :: string
  func :: aggregate_function

text \<open>The five local variables of \<^verbatim>\<open>parse_parameters\<close>.\<close>

record parsed =
  filters :: "filter_spec list"
  field_query :: "string list option"
  join :: join_type
  aggregates :: "aggregate_spec list"
  groups :: "string list"

definition parsed_init :: parsed where
  "parsed_init = \<lparr>filters = [], field_query = None, join = JOIN_TYPE_AND,
                   aggregates = [], groups = []\<rparr>"

text \<open>
  One element of the bracketed aggregate list. The tuple assignment
  \<^verbatim>\<open>name, aggregate_string = element.split(':')\<close> raises ValueError unless the
  split has exactly two pieces. The alias loses its first and last character
  (\<^verbatim>\<open>name.strip()[1:-1]\<close>). A function that is neither Count nor Sum adds
  nothing.
\<close>

definition parse_aggregate :: "string \<Rightarrow> aggregate_spec list \<Rightarrow> exn + aggregate_spec list" where
  "parse_aggregate element aggs =
     (case py_split '':'' element of
        [nm, aggregate_string] \<Rightarrow>
          if startswith aggregate_string ''Count(''
          then Inr (aggs @ [\<lparr>name = py_slice (py_strip nm) 1 (-1),
                              func = Count (py_split '','' (py_replace '')'' '''' (py_replace ''Count('' '''' aggregate_string)))\<rparr>])
          else if startswith aggregate_string ''Sum(''
          then Inr (aggs @ [\<lparr>name = py_slice (py_strip nm) 1 (-1),
                              func = Sum (py_split '','' (py_replace '')'' '''' (py_replace ''Sum('' '''' aggregate_string)))\<rparr>])
          else Inr aggs
      | _ \<Rightarrow> Inl (Http400 ''Specify an alias for the aggregate''))"

fun parse_aggregates :: "string list \<Rightarrow> aggregate_spec list \<Rightarrow> exn + aggregate_spec list" where
  "parse_aggregates [] aggs = Inr aggs"
| "parse_aggregates (element # elements) aggs =
     (case parse_aggregate element aggs of
        Inl e \<Rightarrow> Inl e
      | Inr aggs' \<Rightarrow> parse_aggregates elements aggs')"

text \<open>
  The body of the loop over \<^verbatim>\<open>parameters.items()\<close>. Only IndexError is caught
  around \<^verbatim>\<open>parse_value\<close>; any other exception of the coercion leaves the
  function as it is.
\<close>

definition parse_parameter :: "env \<Rightarrow> string \<times> string \<Rightarrow> parsed \<Rightarrow> exn + parsed" where
  "parse_parameter E pv st =
     (let parameter = fst pv; val = snd pv in
      if \<not> startswith parameter LQL_DELIMITER then
        (case parse_value E val of
           Inl IndexError \<Rightarrow> Inl (Http400 ''Malformed query'')
         | Inl e \<Rightarrow> Inl e
         | Inr v \<Rightarrow>
             if \<not> py_in DOUBLE_DELIMITER parameter
             then Inr (st\<lparr>filters := filters st @
                          [\<lparr>field = parameter, filter_name = ''equals'', fvalue = v\<rparr>]\<rparr>)
             else (case py_split DOUBLE_DELIMITER parameter of
                     [fld, fname] \<Rightarrow>
                       Inr (st\<lparr>filters := filters st @
                              [\<lparr>field = fld, filter_name = fname, fvalue = v\<rparr>]\<rparr>)
                   | _ \<Rightarrow> Inl (Http400 ''Only one filter per field is supported'')))
      else if parameter = LQL_DELIMITER @ ''join'' then
        (if py_upper val = ''OR'' then Inr (st\<lparr>join := JOIN_TYPE_OR\<rparr>) else Inr st)
      else if parameter = LQL_DELIMITER @ ''fields'' then
        Inr (st\<lparr>field_query := Some (py_split '','' val)\<rparr>)
      else if parameter = LQL_DELIMITER @ ''group_by'' then
        Inr (st\<lparr>groups := py_split '','' val\<rparr>)
      else if parameter = LQL_DELIMITER @ ''aggregate'' then
        (case parse_aggregates (py_split '','' (py_slice (py_strip val) 1 (-1))) (aggregates st) of
           Inl e \<Rightarrow> Inl e
         | Inr aggs \<Rightarrow> Inr (st\<lparr>aggregates := aggs\<rparr>))
      else Inr st)"

fun parse_loop :: "env \<Rightarrow> parameters \<Rightarrow> parsed \<Rightarrow> exn + parsed" where
  "parse_loop E [] st = Inr st"
| "parse_loop E (pv # ps) st =
     (case parse_parameter E pv st of
        Inl e \<Rightarrow> Inl e
      | Inr st' \<Rightarrow> parse_loop E ps st')"

definition parse_parameters :: "env \<Rightarrow> parameters \<Rightarrow> exn + parsed" where
  "parse_parameters E ps = parse_loop E ps parsed_init"

subsection \<open>get_filter_functions_map\<close>

record compiled_filter = filter_spec +
  operation :: "pyval \<Rightarrow> bool"

text \<open>
  A name missing from \<^verbatim>\<open>FILTER_NAMES\<close> is reported as a bad request; the
  lookup in \<^verbatim>\<open>FILTER_CLASS_MAP\<close> stands in the \<^verbatim>\<open>else\<close> branch,
  outside the handler.
\<close>

fun get_filter_functions_map :: "env \<Rightarrow> filter_spec list \<Rightarrow> exn + compiled_filter list" where
  "get_filter_functions_map E [] = Inr []"
| "get_filter_functions_map E (f # fs) =
     (case FILTER_NAMES E (filter_name f) of
        None \<Rightarrow> Inl (Http400 (''Unknown filter: '' @ filter_name f))
      | Some filter_identifier \<Rightarrow>
          (case FILTER_CLASS_MAP E filter_identifier of
             None \<Rightarrow> Inl KeyError
           | Some cls \<Rightarrow>
               (case get_filter_functions_map E fs of
                  Inl e \<Rightarrow> Inl e
                | Inr cs \<Rightarrow>
                    Inr (\<lparr>field = field f, filter_name = filter_name f, fvalue = fvalue f,
                          operation = cls (field f) (fvalue f)\<rparr> # cs))))"

subsection \<open>The class Query\<close>

text \<open>
  The constructor stores \<open>data\<close>, \<open>limit\<close> and \<open>klass\<close>. \<^verbatim>\<open>execute\<close> also reads
  \<^verbatim>\<open>self.slug\<close>, which the constructor does not set and no other line of the
  module assigns: \<open>slug\<close> is \<open>None\<close> when the attribute is absent (reading it raises
  AttributeError), as on every object the constructor builds, and \<open>Some s\<close> when it has
  been set from outside. A record of the dataset is its payload \<^verbatim>\<open>item.row\<close>.
  \<open>klass Q part\<close> is \<^verbatim>\<open>klass.objects.get_subclass(slug=part)\<close>: \<open>None\<close>
  for \<^verbatim>\<open>DoesNotExist\<close>, otherwise the \<^verbatim>\<open>get_all\<close> of the source
  found.
\<close>

record query =
  data :: "pyval list"
  limit :: int
  klass :: "string \<Rightarrow> (parameters \<Rightarrow> exn + result) option"
  slug :: "string option"

text \<open>The constructor \<^verbatim>\<open>__init__(self, data, limit, klass)\<close>.\<close>

definition Query_init ::
  "pyval list \<Rightarrow> int \<Rightarrow> (string \<Rightarrow> (parameters \<Rightarrow> exn + result) option) \<Rightarrow> query" where
  "Query_init d l k = \<lparr>data = d, limit = l, klass = k, slug = None\<rparr>"

text \<open>
  A step of \<^verbatim>\<open>execute\<close> either goes on with a value or leaves the method with
  \<^verbatim>\<open>return source.get_all(parameters=parameters)\<close>.
\<close>

datatype 'a flow = Value 'a | Return result

text \<open>\<^verbatim>\<open>value[part]\<close> with a string key.\<close>

fun getitem :: "pyval \<Rightarrow> string \<Rightarrow> exn + pyval" where
  "getitem (PDict kvs) part = (case map_of kvs part of None \<Rightarrow> Inl KeyError | Some v \<Rightarrow> Inr v)"
| "getitem _ part = Inl TypeError"

text \<open>
  The loop over the segments of the field path, inside the outer \<^verbatim>\<open>try\<close>.
\<close>

fun resolve_parts ::
  "env \<Rightarrow> query \<Rightarrow> parameters \<Rightarrow> string \<Rightarrow> nat \<Rightarrow> string list \<Rightarrow> pyval \<Rightarrow> exn + pyval flow" where
  "resolve_parts E Q ps fld index [] v = Inr (Value v)"
| "resolve_parts E Q ps fld index (part # parts) v =
     (if part = ''_length'' \<or> part = ''_area'' \<or> part = ''_type'' then
        (case shape E part v of
           Inl e \<Rightarrow> Inl e
         | Inr v' \<Rightarrow> resolve_parts E Q ps fld (Suc index) parts v')
      else
        (case getitem v part of
           Inr v' \<Rightarrow> resolve_parts E Q ps fld (Suc index) parts v'
         | Inl KeyError \<Rightarrow>
             if index = 0 then
               (case slug Q of
                  None \<Rightarrow> Inl AttributeError
                | Some s \<Rightarrow>
                    if part \<noteq> s then
                      (case klass Q part of
                         None \<Rightarrow> Inl (Http400 (''Unknown source: '' @ part))
                       | Some get_all \<Rightarrow>
                           (case get_all ps of Inl e \<Rightarrow> Inl e | Inr r \<Rightarrow> Inr (Return r)))
                    else resolve_parts E Q ps fld (Suc index) parts v)
             else Inl (Http400 (''Invalid element: '' @ fld))
         | Inl e \<Rightarrow> Inl e))"

text \<open>The outer handler: AttributeError and TypeError become a bad request.\<close>

definition resolve :: "env \<Rightarrow> query \<Rightarrow> parameters \<Rightarrow> compiled_filter \<Rightarrow> pyval \<Rightarrow> exn + pyval flow" where
  "resolve E Q ps f item =
     (case resolve_parts E Q ps (field f) 0 (py_split ''.'' (field f)) item of
        Inl AttributeError \<Rightarrow> Inl (Http400 (''Invalid element: '' @ field f))
      | Inl TypeError \<Rightarrow> Inl (Http400 (''Invalid element: '' @ field f))
      | r \<Rightarrow> r)"

text \<open>The loop over \<^verbatim>\<open>enumerate(self.data)\<close> for one filter.\<close>

fun scan_rows ::
  "env \<Rightarrow> query \<Rightarrow> parameters \<Rightarrow> compiled_filter \<Rightarrow> nat \<Rightarrow> pyval list \<Rightarrow> nat list
     \<Rightarrow> exn + nat list flow" where
  "scan_rows E Q ps f row_id [] filter_results = Inr (Value filter_results)"
| "scan_rows E Q ps f row_id (item # items) filter_results =
     (case resolve E Q ps f item of
        Inl e \<Rightarrow> Inl e
      | Inr (Return r) \<Rightarrow> Inr (Return r)
      | Inr (Value v) \<Rightarrow>
          scan_rows E Q ps f (Suc row_id) items
            (if operation f v then filter_results @ [row_id] else filter_results))"

text \<open>
  The end of the loop body: \<^verbatim>\<open>if query_results:\<close> tests the set for
  emptiness.
\<close>

definition combine :: "join_type \<Rightarrow> nat set \<Rightarrow> nat list \<Rightarrow> nat set" where
  "combine jt query_results filter_results =
     (if query_results \<noteq> {} then
        (if jt = JOIN_TYPE_AND then query_results \<inter> set filter_results
         else query_results \<union> set filter_results)
      else set filter_results)"

fun filter_loop ::
  "env \<Rightarrow> query \<Rightarrow> parameters \<Rightarrow> join_type \<Rightarrow> compiled_filter list \<Rightarrow> nat set
     \<Rightarrow> exn + nat set flow" where
  "filter_loop E Q ps jt [] query_results = Inr (Value query_results)"
| "filter_loop E Q ps jt (post_filter # rest) query_results =
     (case scan_rows E Q ps post_filter 0 (data Q) [] of
        Inl e \<Rightarrow> Inl e
      | Inr (Return r) \<Rightarrow> Inr (Return r)
      | Inr (Value filter_results) \<Rightarrow>
          filter_loop E Q ps jt rest (combine jt query_results filter_results))"

subsection \<open>get_data\<close>

text \<open>
  \<^verbatim>\<open>itemgetter(*positions)(queryset)\<close>: the items at the positions, in the order
  of the positions; IndexError out of range.
\<close>

fun itemgetter :: "nat list \<Rightarrow> 'a list \<Rightarrow> exn + 'a list" where
  "itemgetter [] xs = Inr []"
| "itemgetter (i # js) xs =
     (if i < length xs
      then (case itemgetter js xs of Inl e \<Rightarrow> Inl e | Inr ys \<Rightarrow> Inr (xs ! i # ys))
      else Inl IndexError)"

text \<open>
  \<^verbatim>\<open>fields_lambda\<close> is the identity in every call of the module. The positions
  are read in the iteration order of the set, \<^verbatim>\<open>list(query_results)\<close>.
\<close>

definition get_data :: "env \<Rightarrow> query \<Rightarrow> pyval list \<Rightarrow> 'f list \<Rightarrow> nat set \<Rightarrow> exn + pyval list" where
  "get_data E Q queryset fs query_results =
     (if fs \<noteq> [] then
        (if card query_results = 1 then itemgetter (set_iter E query_results) queryset
         else if card query_results = 0 then Inr []
         else (case itemgetter (set_iter E query_results) queryset of
                 Inl e \<Rightarrow> Inl e
               | Inr items \<Rightarrow> Inr (py_slice items 0 (limit Q))))
      else Inr (py_slice queryset 0 (limit Q)))"

subsection \<open>process_groups\<close>

text \<open>
  Python 2 compares the values that can be dictionary keys in this order: None first, then
  the numbers by value (a boolean is 0 or 1, an integer and a float are compared exactly),
  then the strings by character code. \<open>key_code\<close> maps a key to a tuple that is compared
  lexicographically; two keys other than NaN are equal in Python, and are the same
  dictionary key, exactly when their codes are equal. NaN is a number that is neither smaller
  than, nor greater than, nor equal to any number; only the first component of its code is
  used. Lists and dictionaries are not hashable and get a code only to keep the function
  total.
\<close>

fun key_code :: "pyval \<Rightarrow> nat \<times> nat \<times> rat \<times> nat list" where
  "key_code PNone = (0, 0, 0, [])"
| "key_code (PBool b) = (1, 1, (if b then 1 else 0), [])"
| "key_code (PInt i) = (1, 1, of_int i, [])"
| "key_code (PFloat NegInf) = (1, 0, 0, [])"
| "key_code (PFloat (Finite r)) = (1, 1, r, [])"
| "key_code (PFloat PosInf) = (1, 2, 0, [])"
| "key_code (PFloat NaN) = (1, 3, 0, [])"
| "key_code (PDict d) = (2, 0, 0, [])"
| "key_code (PList l) = (3, 0, 0, [])"
| "key_code (PStr s) = (4, 0, 0, map of_char s)"

fun is_nan :: "pyval \<Rightarrow> bool" where
  "is_nan (PFloat NaN) = True"
| "is_nan _ = False"

text \<open>
  \<^verbatim>\<open>a < b\<close> and \<^verbatim>\<open>a == b\<close> on keys. The float objects of different rows
  are different objects, so a NaN key is equal to no other key.
\<close>

definition py_lt :: "pyval \<Rightarrow> pyval \<Rightarrow> bool" where
  "py_lt a b =
     (if is_nan a \<or> is_nan b then fst (key_code a) < fst (key_code b)
      else key_code a < key_code b)"

definition py_eq :: "pyval \<Rightarrow> pyval \<Rightarrow> bool" where
  "py_eq a b = (\<not> is_nan a \<and> \<not> is_nan b \<and> key_code a = key_code b)"

fun hashable :: "pyval \<Rightarrow> bool" where
  "hashable (PList l) = False"
| "hashable (PDict d) = False"
| "hashable _ = True"

text \<open>Item assignment and lookup on a dictionary keyed by values.\<close>

fun pdict_set :: "pyval \<Rightarrow> 'v \<Rightarrow> (pyval \<times> 'v) list \<Rightarrow> (pyval \<times> 'v) list" where
  "pdict_set k v [] = [(k, v)]"
| "pdict_set k v ((k', v') # d) =
     (if py_eq k' k then (k', v) # d else (k', v') # pdict_set k v d)"

fun pdict_get :: "pyval \<Rightarrow> (pyval \<times> 'v) list \<Rightarrow> 'v option" where
  "pdict_get k [] = None"
| "pdict_get k ((k', v') # d) = (if py_eq k' k then Some v' else pdict_get k d)"

text \<open>
  \<^verbatim>\<open>sorted(xs, key=key)\<close>: the stable insertion sort that uses only
  \<^verbatim>\<open><\<close> on the keys, as Python's sort does. Where \<^verbatim>\<open><\<close> orders the
  keys totally, every stable sort returns this list; where no element's key is smaller than
  the key of the element before it, Python's sort leaves the list as it is, and so does this
  one. On other lists with NaN keys the result of Python's sort depends on the details of its
  algorithm.
\<close>

fun insort_by_key :: "('a \<Rightarrow> pyval) \<Rightarrow> 'a \<Rightarrow> 'a list \<Rightarrow> 'a list" where
  "insort_by_key key x [] = [x]"
| "insort_by_key key x (y # ys) =
     (if \<not> py_lt (key y) (key x) then x # y # ys else y # insort_by_key key x ys)"

definition py_sorted :: "('a \<Rightarrow> pyval) \<Rightarrow> 'a list \<Rightarrow> 'a list" where
  "py_sorted key xs = foldr (insort_by_key key) xs []"

text \<open>
  \<^verbatim>\<open>sorted(backup, key=itemgetter(group))\<close> first computes the key of every row,
  in order: a row without the field raises KeyError, a row that is not a dictionary
  TypeError.
\<close>

fun item_keys :: "string \<Rightarrow> pyval list \<Rightarrow> exn + (pyval \<times> pyval) list" where
  "item_keys g [] = Inr []"
| "item_keys g (row # rows) =
     (case getitem row g of
        Inl e \<Rightarrow> Inl e
      | Inr k \<Rightarrow> (case item_keys g rows of Inl e \<Rightarrow> Inl e | Inr krs \<Rightarrow> Inr ((k, row) # krs)))"

text \<open>
  \<^verbatim>\<open>itertools.groupby\<close> on rows paired with their keys: the maximal runs of
  adjacent rows with equal keys, each under the key of its first row.
\<close>

function groupby :: "(pyval \<times> 'a) list \<Rightarrow> (pyval \<times> 'a list) list" where
  "groupby [] = []"
| "groupby (kx # kxs) =
     (fst kx, snd kx # map snd (takeWhile (\<lambda>p. py_eq (fst p) (fst kx)) kxs))
       # groupby (dropWhile (\<lambda>p. py_eq (fst p) (fst kx)) kxs)"
  by pat_completeness auto
termination
  by (relation "measure length") (auto simp: length_dropWhile_le less_Suc_eq_le)

text \<open>\<^verbatim>\<open>result[group][key] = list(group_data)\<close> for each run.\<close>

fun store_groups ::
  "(pyval \<times> pyval list) list \<Rightarrow> (pyval \<times> pyval list) list \<Rightarrow> (pyval \<times> pyval list) list" where
  "store_groups [] d = d"
| "store_groups (run # runs) d = store_groups runs (pdict_set (fst run) (snd run) d)"

text \<open>
  The body of the loop over the group fields. A key that is a list or a dictionary starts a
  run of its own after the sort, and storing that run raises TypeError (unhashable); as the
  sort itself does not raise, the test is made before it.
\<close>

definition group_rows :: "string \<Rightarrow> pyval list \<Rightarrow> exn + (pyval \<times> pyval list) list" where
  "group_rows g rows =
     (case item_keys g rows of
        Inl e \<Rightarrow> Inl e
      | Inr krs \<Rightarrow>
          if list_all (\<lambda>kr. hashable (fst kr)) krs
          then Inr (store_groups (groupby (py_sorted fst krs)) [])
          else Inl TypeError)"

fun process_groups_loop ::
  "string list \<Rightarrow> pyval list \<Rightarrow> (string \<times> (pyval \<times> pyval list) list) list
     \<Rightarrow> exn + (string \<times> (pyval \<times> pyval list) list) list" where
  "process_groups_loop [] rows res = Inr res"
| "process_groups_loop (g # gs) rows res =
     (case group_rows g rows of
        Inl e \<Rightarrow> Inl e
      | Inr d \<Rightarrow> process_groups_loop gs rows (dict_set g d res))"

definition process_groups :: "pyval list \<Rightarrow> string list \<Rightarrow> exn + result" where
  "process_groups rows gs =
     (if gs \<noteq> [] then
        (case process_groups_loop gs rows [] of Inl e \<Rightarrow> Inl e | Inr res \<Rightarrow> Inr (Grouped res))
      else Inr (Rows rows))"

subsection \<open>process_aggregates\<close>

text \<open>
  Modelled from the spec: \<^verbatim>\<open>Count.execute\<close> of \<^verbatim>\<open>aggregates.py\<close>,
  which is not among the sources. The spec: Count ignores its operand field list and returns
  the number of rows in the given row subset. \<^verbatim>\<open>Sum.execute\<close> is the parameter
  \<open>Sum_execute\<close>.
\<close>

fun aggregate_execute :: "env \<Rightarrow> aggregate_function \<Rightarrow> pyval list \<Rightarrow> exn + pyval" where
  "aggregate_execute E (Count args) rows = Inr (PInt (int (length rows)))"
| "aggregate_execute E (Sum args) rows = Sum_execute E args rows"

text \<open>
  \<^verbatim>\<open>for aggregate in aggregates: d[aggregate['name']] = ...execute(rows)\<close>, on
  the dictionary \<open>d\<close>.
\<close>

fun aggregate_loop ::
  "env \<Rightarrow> aggregate_spec list \<Rightarrow> pyval list \<Rightarrow> (string \<times> pyval) list
     \<Rightarrow> exn + (string \<times> pyval) list" where
  "aggregate_loop E [] rows d = Inr d"
| "aggregate_loop E (a # aggs) rows d =
     (case aggregate_execute E (func a) rows of
        Inl e \<Rightarrow> Inl e
      | Inr v \<Rightarrow> aggregate_loop E aggs rows (dict_set (name a) v d))"

text \<open>
  \<^verbatim>\<open>for group_result in data[group]\<close>, with
  \<^verbatim>\<open>new_result[group].setdefault(group_result, {})\<close>.
\<close>

fun key_results_loop ::
  "env \<Rightarrow> aggregate_spec list \<Rightarrow> (pyval \<times> pyval list) list
     \<Rightarrow> (pyval \<times> (string \<times> pyval) list) list
     \<Rightarrow> exn + (pyval \<times> (string \<times> pyval) list) list" where
  "key_results_loop E aggs [] acc = Inr acc"
| "key_results_loop E aggs (kr # krs) acc =
     (case aggregate_loop E aggs (snd kr)
             (case pdict_get (fst kr) acc of None \<Rightarrow> [] | Some d \<Rightarrow> d) of
        Inl e \<Rightarrow> Inl e
      | Inr d \<Rightarrow> key_results_loop E aggs krs (pdict_set (fst kr) d acc))"

text \<open>
  \<^verbatim>\<open>for group in groups\<close>, with \<^verbatim>\<open>new_result.setdefault(group, {})\<close>.
\<close>

fun group_aggregate_loop ::
  "env \<Rightarrow> aggregate_spec list \<Rightarrow> (string \<times> (pyval \<times> pyval list) list) list \<Rightarrow> string list
     \<Rightarrow> (string \<times> (pyval \<times> (string \<times> pyval) list) list) list
     \<Rightarrow> exn + (string \<times> (pyval \<times> (string \<times> pyval) list) list) list" where
  "group_aggregate_loop E aggs gd [] acc = Inr acc"
| "group_aggregate_loop E aggs gd (g # gs) acc =
     (case map_of gd g of
        None \<Rightarrow> Inl KeyError
      | Some krs \<Rightarrow>
          (case key_results_loop E aggs krs (case map_of acc g of None \<Rightarrow> [] | Some d \<Rightarrow> d) of
             Inl e \<Rightarrow> Inl e
           | Inr d \<Rightarrow> group_aggregate_loop E aggs gd gs (dict_set g d acc)))"

text \<open>
  Without groups the data is the row sequence, with groups it is the dictionary of
  \<^verbatim>\<open>process_groups\<close>; another shape cannot reach the branch and is a TypeError
  here.
\<close>

definition process_aggregates ::
  "env \<Rightarrow> result \<Rightarrow> string list \<Rightarrow> aggregate_spec list \<Rightarrow> exn + result" where
  "process_aggregates E d gs aggs =
     (if aggs \<noteq> [] then
        (if gs = [] then
           (case d of
              Rows rows \<Rightarrow>
                (case aggregate_loop E aggs rows [] of
                   Inl e \<Rightarrow> Inl e | Inr new_result \<Rightarrow> Inr (Aggregated new_result))
            | _ \<Rightarrow> Inl TypeError)
         else
           (case d of
              Grouped gd \<Rightarrow>
                (case group_aggregate_loop E aggs gd gs [] of
                   Inl e \<Rightarrow> Inl e | Inr new_result \<Rightarrow> Inr (GroupAggregated new_result))
            | _ \<Rightarrow> Inl TypeError))
      else Inr d)"

subsection \<open>process_field_filtering and execute\<close>

definition process_field_filtering :: "env \<Rightarrow> result \<Rightarrow> string list option \<Rightarrow> exn + result" where
  "process_field_filtering E d fq =
     (case fq of
        None \<Rightarrow> Inr d
      | Some q \<Rightarrow>
          if q = [] then Inr d
          else (case jsonq_query E q d of
                  Inl ValueError \<Rightarrow> Inl (Http400 ''Filter query error'')
                | r \<Rightarrow> r))"

definition execute :: "env \<Rightarrow> query \<Rightarrow> parameters \<Rightarrow> exn + result" where
  "execute E Q ps =
     (case parse_parameters E ps of
        Inl e \<Rightarrow> Inl e
      | Inr P \<Rightarrow>
     (case get_filter_functions_map E (filters P) of
        Inl e \<Rightarrow> Inl e
      | Inr filters_function_map \<Rightarrow>
     (case filter_loop E Q ps (join P) filters_function_map {} of
        Inl e \<Rightarrow> Inl e
      | Inr (Return r) \<Rightarrow> Inr r
      | Inr (Value query_results) \<Rightarrow>
     (case get_data E Q (data Q) (filters P) query_results of
        Inl e \<Rightarrow> Inl e
      | Inr rows \<Rightarrow>
     (case process_groups rows (groups P) of
        Inl e \<Rightarrow> Inl e
      | Inr grouped \<Rightarrow>
     (case process_aggregates E grouped (groups P) (aggregates P) of
        Inl e \<Rightarrow> Inl e
      | Inr aggregated \<Rightarrow> process_field_filtering E aggregated (field_query P)))))))"

subsection \<open>An instance of the parameters, for the examples\<close>

text \<open>
  The examples below run the model on concrete inputs and need concrete collaborators. In
  \<open>sample_env\<close> the coercion raises IndexError on the empty raw value, reads a string of
  decimal digits as that number and keeps any other raw value as a string; the registry knows
  the single operator \<^verbatim>\<open>equals\<close> (equality with the filter's value); there is no
  geometry, no Sum and no projection; and a set of positions is iterated in ascending
  order.
\<close>

fun decimal :: "string \<Rightarrow> nat \<Rightarrow> nat option" where
  "decimal [] n = Some n"
| "decimal (c # cs) n =
     (case map_of (zip ''0123456789'' [0 ..< 10]) c of
        None \<Rightarrow> None
      | Some d \<Rightarrow> decimal cs (10 * n + d))"

definition sample_parse_value :: "string \<Rightarrow> exn + pyval" where
  "sample_parse_value s =
     (if s = [] then Inl IndexError
      else case decimal s 0 of None \<Rightarrow> Inr (PStr s) | Some n \<Rightarrow> Inr (PInt (int n)))"

definition sample_env :: env where
  "sample_env =
     \<lparr>parse_value = sample_parse_value,
      FILTER_NAMES = (\<lambda>n. if n = ''equals'' then Some 0 else None),
      FILTER_CLASS_MAP = (\<lambda>i. if i = 0 then Some (\<lambda>fld v x. x = v) else None),
      shape = (\<lambda>part v. Inl AttributeError),
      Sum_execute = (\<lambda>args rows. Inl TypeError),
      jsonq_query = (\<lambda>q d. Inl ValueError),
      set_iter = sorted_list_of_set\<rparr>"

text \<open>The dataset of the spec's scenarios, and a query on it with limit 10.\<close>

definition scenario_data :: "pyval list" where
  "scenario_data =
     [PDict [(''id'', PInt 1), (''v'', PInt 5)],
      PDict [(''id'', PInt 2), (''v'', PInt 7)],
      PDict [(''id'', PInt 3), (''v'', PInt 5)]]"

definition scenario_query :: query where
  "scenario_query = Query_init scenario_data 10 (\<lambda>s. None)"

text \<open>
  \<open>same_key g k row\<close>: the row has the field \<open>g\<close>, and its value there is equal to
  \<open>k\<close> as a dictionary key.
\<close>

definition same_key :: "string \<Rightarrow> pyval \<Rightarrow> pyval \<Rightarrow> bool" where
  "same_key g k row = (case getitem row g of Inl e \<Rightarrow> False | Inr k' \<Rightarrow> py_eq k' k)"

text \<open>
  Another iteration order for sets of positions, the one of a hash table with eight slots
  that keeps the integer \<open>i\<close> in slot \<open>i mod 8\<close> and is read slot by slot. This is how
  CPython lays out a set of at most five small integers whose residues modulo 8 differ;
  \<open>sample_env_slots\<close> is \<open>sample_env\<close> with this order.
\<close>

definition slot_order :: "nat set \<Rightarrow> nat list" where
  "slot_order S = sort_key (\<lambda>i. i mod 8) (sorted_list_of_set S)"

definition sample_env_slots :: env where
  "sample_env_slots = sample_env\<lparr>set_iter := slot_order\<rparr>"

text \<open>Nine records; the records at positions 1 and 8 have \<open>v = 1\<close>, the others \<open>v = 0\<close>.\<close>

definition nine_records :: "pyval list" where
  "nine_records =
     map (\<lambda>i. PDict [(''id'', PInt (int i)), (''v'', PInt (if i = 1 \<or> i = 8 then 1 else 0))])
       [0..<9]"

text \<open>
  Three records and three fields; the record at position \<open>i\<close> has the value 1 in
  field number \<open>i\<close> only, so the filters \<open>a = 1\<close>, \<open>b = 1\<close>, \<open>c = 1\<close> match the
  pairwise disjoint sets of positions \<open>{0}\<close>, \<open>{1}\<close>, \<open>{2}\<close>.
\<close>

definition disjoint_query :: query where
  "disjoint_query =
     \<lparr>data = [PDict [(''a'', PInt 1), (''b'', PInt 0), (''c'', PInt 0)],
              PDict [(''a'', PInt 0), (''b'', PInt 1), (''c'', PInt 0)],
              PDict [(''a'', PInt 0), (''b'', PInt 0), (''c'', PInt 1)]],
      limit = 10, klass = (\<lambda>s. None), slug = None\<rparr>"

text \<open>Three records whose values of \<open>v\<close> are the floats 1.0, NaN and 1.0.\<close>

definition nan_rows :: "pyval list" where
  "nan_rows =
     [PDict [(''id'', PInt 1), (''v'', PFloat (Finite 1))],
      PDict [(''id'', PInt 2), (''v'', PFloat NaN)],
      PDict [(''id'', PInt 3), (''v'', PFloat (Finite 1))]]"

section \<open>Properties\<close>

subsection \<open>The result combiner\<close>

lemma combine_or: "combine JOIN_TYPE_OR query_results filter_results = query_results \<union> set filter_results"
  by (simp add: combine_def)

lemma combine_and_nonempty:
  "query_results \<noteq> {} \<Longrightarrow>
     combine JOIN_TYPE_AND query_results filter_results = query_results \<inter> set filter_results"
  by (simp add: combine_def)

lemma combine_empty: "combine jt {} filter_results = set filter_results"
  by (simp add: combine_def)

text \<open>
  Under OR the loop does compute the union of the match-sets: replacing an empty set by a
  match-set is a union too.
\<close>

lemma filter_loop_or_union:
  "list_all2 (\<lambda>f m. scan_rows E Q ps f 0 (data Q) [] = Inr (Value m)) fs ms \<Longrightarrow>
     filter_loop E Q ps JOIN_TYPE_OR fs acc = Inr (Value (acc \<union> \<Union> (set ` set ms)))"
proof (induction fs ms arbitrary: acc rule: list_all2_induct)
  case Nil
  then show ?case by simp
next
  case (Cons f m fs ms)
  then show ?case by (simp add: combine_or Un_assoc)
qed

text \<open>
  Claim C1. Under AND the surviving positions should be the intersection of the match-sets
  of all filters, also when one of them is empty. The loop takes an empty
  \<open>query_results\<close> for "no filter seen yet": whenever the set is empty when a filter has
  been scanned, that filter's match-set replaces it instead of being intersected into it.
  With the single record \<open>{a: 1, b: 2}\<close> and the filters \<open>a = 9\<close> (no match) and
  \<open>b = 2\<close>, the record survives although it fails the first filter. With three filters
  whose match-sets are pairwise disjoint, the intersection is empty, and in each of the six
  orders of the filters the record matched by the last filter survives.
\<close>

theorem and_join_reseeds_after_empty_match:
  "execute sample_env
     \<lparr>data = [PDict [(''a'', PInt 1), (''b'', PInt 2)]], limit = 10,
      klass = (\<lambda>s. None), slug = None\<rparr>
     [(''a'', ''9''), (''b'', ''2'')]
   = Inr (Rows [PDict [(''a'', PInt 1), (''b'', PInt 2)]])
   \<and> combine JOIN_TYPE_AND (combine JOIN_TYPE_AND {} []) [0] = {0}
   \<and> set [] \<inter> set [0] = ({} :: nat set)
   \<and> execute sample_env disjoint_query [(''a'', ''1''), (''b'', ''1''), (''c'', ''1'')]
       = Inr (Rows [data disjoint_query ! 2])
   \<and> execute sample_env disjoint_query [(''b'', ''1''), (''a'', ''1''), (''c'', ''1'')]
       = Inr (Rows [data disjoint_query ! 2])
   \<and> execute sample_env disjoint_query [(''a'', ''1''), (''c'', ''1''), (''b'', ''1'')]
       = Inr (Rows [data disjoint_query ! 1])
   \<and> execute sample_env disjoint_query [(''c'', ''1''), (''a'', ''1''), (''b'', ''1'')]
       = Inr (Rows [data disjoint_query ! 1])
   \<and> execute sample_env disjoint_query [(''b'', ''1''), (''c'', ''1''), (''a'', ''1'')]
       = Inr (Rows [data disjoint_query ! 0])
   \<and> execute sample_env disjoint_query [(''c'', ''1''), (''b'', ''1''), (''a'', ''1'')]
       = Inr (Rows [data disjoint_query ! 0])
   \<and> set [0] \<inter> set [1] \<inter> set [2] = ({} :: nat set)"
proof (intro conjI)
  show "combine JOIN_TYPE_AND (combine JOIN_TYPE_AND {} []) [0] = {0}"
    by (simp add: combine_def)
  show "set [] \<inter> set [0] = ({} :: nat set)"
    by simp
  show "set [0] \<inter> set [1] \<inter> set [2] = ({} :: nat set)"
    by simp
qed code_simp+

subsection \<open>Data retrieval\<close>

text \<open>
  Claim C3. With limit 0 the retrieval should yield no row, and never more rows than the
  limit. The branch for exactly one surviving position returns that record without applying
  \<^verbatim>\<open>[0:self.limit]\<close>, which the two other branches apply: one record, filter
  \<open>v = 5\<close> matching it, limit 0, and the record is returned. Without a filter the same
  query returns no row.
\<close>

theorem single_match_ignores_limit:
  "execute sample_env
     \<lparr>data = [PDict [(''v'', PInt 5)]], limit = 0, klass = (\<lambda>s. None), slug = None\<rparr>
     [(''v'', ''5'')]
   = Inr (Rows [PDict [(''v'', PInt 5)]])
   \<and> get_data sample_env
     \<lparr>data = [PDict [(''v'', PInt 5)]], limit = 0, klass = (\<lambda>s. None), slug = None\<rparr>
     [PDict [(''v'', PInt 5)]] [()] {0}
   = Inr [PDict [(''v'', PInt 5)]]
   \<and> execute sample_env
     \<lparr>data = [PDict [(''v'', PInt 5)]], limit = 0, klass = (\<lambda>s. None), slug = None\<rparr>
     []
   = Inr (Rows [])"
  by (intro conjI; code_simp)

subsection \<open>Aggregates\<close>



subsection \<open>Errors\<close>

text \<open>
  Claim C6. Every failure of \<^verbatim>\<open>execute\<close> should be a bad request
  (\<^verbatim>\<open>Http400\<close>). The field lookup of the filters turns a failed lookup into one,
  the key lookup of \<^verbatim>\<open>process_groups\<close> does not: grouping by a field that a
  row lacks leaves \<^verbatim>\<open>execute\<close> with the KeyError of
  \<^verbatim>\<open>itemgetter(group)\<close>, whatever the collaborators are.
\<close>

theorem group_by_missing_field_raises_KeyError:
  "execute E \<lparr>data = [PDict [(''id'', PInt 1)]], limit = 10, klass = K, slug = S\<rparr>
     [(''_group_by'', ''v'')]
   = Inl KeyError"
  by code_simp

text \<open>
  The same holds for the coercion: \<^verbatim>\<open>parse_parameters\<close> catches IndexError
  only, and any other exception of \<^verbatim>\<open>parse_value\<close> leaves
  \<^verbatim>\<open>execute\<close> as it is.
\<close>

lemma uncaught_coercion_error_propagates:
  assumes "parse_value E v = Inl e" "e \<noteq> IndexError" "\<not> startswith p LQL_DELIMITER"
  shows "execute E Q [(p, v)] = Inl e"
  using assms
  by (cases e) (simp_all add: execute_def parse_parameters_def parse_parameter_def)

subsection \<open>The join directive\<close>

lemma upper_char_O: "upper_char c = CHR ''O'' \<longleftrightarrow> c = CHR ''O'' \<or> c = CHR ''o''"
  by (simp add: upper_char_def)

lemma upper_char_R: "upper_char c = CHR ''R'' \<longleftrightarrow> c = CHR ''R'' \<or> c = CHR ''r''"
  by (simp add: upper_char_def)

lemma py_upper_OR: "py_upper v = ''OR'' \<longleftrightarrow> v \<in> {''OR'', ''Or'', ''oR'', ''or''}"
proof (cases v)
  case Nil
  then show ?thesis by (simp add: py_upper_def)
next
  case outer: (Cons a w)
  show ?thesis
  proof (cases w)
    case Nil
    with outer show ?thesis by (simp add: py_upper_def)
  next
    case (Cons b u)
    with outer show ?thesis
      by (cases u) (auto simp: py_upper_def upper_char_O upper_char_R)
  qed
qed

lemma parse_parameter_join:
  "parse_parameter E pv st = Inr st' \<Longrightarrow>
     join st' = (if fst pv = ''_join'' \<and> py_upper (snd pv) = ''OR'' then JOIN_TYPE_OR else join st)"
  unfolding parse_parameter_def Let_def
  by (auto simp: LQL_DELIMITER_def startswith_def split: if_splits sum.splits exn.splits list.splits)

lemma parse_loop_join:
  "parse_loop E ps st = Inr st' \<Longrightarrow>
     (join st' = JOIN_TYPE_OR \<longleftrightarrow>
        join st = JOIN_TYPE_OR \<or> (\<exists>v. (''_join'', v) \<in> set ps \<and> py_upper v = ''OR''))"
proof (induction ps arbitrary: st)
  case Nil
  then show ?case by simp
next
  case (Cons pv ps)
  from Cons.prems obtain st1 where s1: "parse_parameter E pv st = Inr st1"
    and s2: "parse_loop E ps st1 = Inr st'"
    by (auto split: sum.splits)
  from parse_parameter_join[OF s1] Cons.IH[OF s2] show ?case
    by (cases pv) (auto split: if_splits)
qed

lemma parse_join_directive:
  "parse_parameter E (''_join'', v) st =
     Inr (st\<lparr>join := if py_upper v = ''OR'' then JOIN_TYPE_OR else join st\<rparr>)"
  by (simp add: parse_parameter_def LQL_DELIMITER_def startswith_def)

text \<open>
  Claim C8. The join directive alone never fails: it sets the join type to OR when its
  value is one of the four spellings of "or", and leaves it as it was otherwise. For a whole
  parameter map that parses, the join type is OR exactly when the map holds a join directive
  with such a value, and AND in every other case: with another value, and with no
  directive.
\<close>

theorem join_directive_or_iff:
  "parse_parameter E (''_join'', v) st =
     Inr (st\<lparr>join := if v \<in> {''OR'', ''Or'', ''oR'', ''or''} then JOIN_TYPE_OR else join st\<rparr>)
   \<and> (parse_parameters E ps = Inr P \<longrightarrow>
        (join P = JOIN_TYPE_OR \<longleftrightarrow> (\<exists>v \<in> {''OR'', ''Or'', ''oR'', ''or''}. (''_join'', v) \<in> set ps))
        \<and> (join P = JOIN_TYPE_AND \<longleftrightarrow> \<not> (\<exists>v \<in> {''OR'', ''Or'', ''oR'', ''or''}. (''_join'', v) \<in> set ps)))"
proof (intro conjI impI)
  show "parse_parameter E (''_join'', v) st =
     Inr (st\<lparr>join := if v \<in> {''OR'', ''Or'', ''oR'', ''or''} then JOIN_TYPE_OR else join st\<rparr>)"
    using py_upper_OR[of v] by (simp only: parse_join_directive)
next
  assume p: "parse_parameters E ps = Inr P"
  then have "join P = JOIN_TYPE_OR \<longleftrightarrow> (\<exists>v. (''_join'', v) \<in> set ps \<and> py_upper v = ''OR'')"
    using parse_loop_join[of E ps parsed_init P]
    by (simp add: parse_parameters_def parsed_init_def)
  then show or: "join P = JOIN_TYPE_OR \<longleftrightarrow> (\<exists>v \<in> {''OR'', ''Or'', ''oR'', ''or''}. (''_join'', v) \<in> set ps)"
    using py_upper_OR by blast
  then show "join P = JOIN_TYPE_AND \<longleftrightarrow> \<not> (\<exists>v \<in> {''OR'', ''Or'', ''oR'', ''or''}. (''_join'', v) \<in> set ps)"
    by (cases "join P") simp_all
qed

theorem join_directive_or_iff_witness:
  "parse_parameters sample_env [(''v'', ''5''), (''_join'', ''or'')]
     = Inr \<lparr>filters = [\<lparr>field = ''v'', filter_name = ''equals'', fvalue = PInt 5\<rparr>],
            field_query = None, join = JOIN_TYPE_OR, aggregates = [], groups = []\<rparr>
   \<and> parse_parameters sample_env [(''v'', ''5''), (''_join'', ''xor'')]
     = Inr \<lparr>filters = [\<lparr>field = ''v'', filter_name = ''equals'', fvalue = PInt 5\<rparr>],
            field_query = None, join = JOIN_TYPE_AND, aggregates = [], groups = []\<rparr>
   \<and> (\<exists>v \<in> {''OR'', ''Or'', ''oR'', ''or''}. (''_join'', v) \<in> set [(''v'', ''5''), (''_join'', ''or'')])"
proof -
  have a: "parse_parameters sample_env [(''v'', ''5''), (''_join'', ''or'')]
     = Inr \<lparr>filters = [\<lparr>field = ''v'', filter_name = ''equals'', fvalue = PInt 5\<rparr>],
            field_query = None, join = JOIN_TYPE_OR, aggregates = [], groups = []\<rparr>"
    by code_simp
  have b: "parse_parameters sample_env [(''v'', ''5''), (''_join'', ''xor'')]
     = Inr \<lparr>filters = [\<lparr>field = ''v'', filter_name = ''equals'', fvalue = PInt 5\<rparr>],
            field_query = None, join = JOIN_TYPE_AND, aggregates = [], groups = []\<rparr>"
    by code_simp
  from join_directive_or_iff[of sample_env "''or''" parsed_init "[(''v'', ''5''), (''_join'', ''or'')]"
       "\<lparr>filters = [\<lparr>field = ''v'', filter_name = ''equals'', fvalue = PInt 5\<rparr>],
            field_query = None, join = JOIN_TYPE_OR, aggregates = [], groups = []\<rparr>"] a b
  show ?thesis by simp
qed

subsection \<open>Operators in parameter names\<close>

lemma split_aux_nonempty: "split_aux sep acc s \<noteq> []"
  by (induction sep acc s rule: split_aux.induct) auto

lemma py_join_Cons: "ps \<noteq> [] \<Longrightarrow> py_join new (p # ps) = p @ new @ py_join new ps"
  by (cases ps) simp_all

lemma split_aux_join: "py_join sep (split_aux sep acc s) = rev acc @ s"
proof (induction sep acc s rule: split_aux.induct)
  case (1 sep acc)
  then show ?case by simp
next
  case (2 sep acc c cs)
  show ?case
  proof (cases "sep \<noteq> [] \<and> startswith (c # cs) sep")
    case True
    then have "sep @ drop (length sep) (c # cs) = c # cs"
      by (metis append_take_drop_id startswith_def)
    with True 2 show ?thesis
      by (simp add: py_join_Cons split_aux_nonempty)
  next
    case False
    with 2 show ?thesis by auto
  qed
qed

lemma split_aux_not_in: "\<not> py_in sep s \<Longrightarrow> split_aux sep acc s = [rev acc @ s]"
  by (induction s arbitrary: acc) auto

lemma split_aux_in: "sep \<noteq> [] \<Longrightarrow> py_in sep s \<Longrightarrow> 2 \<le> length (split_aux sep acc s)"
proof (induction s arbitrary: acc)
  case Nil
  then show ?case by simp
next
  case (Cons c cs)
  show ?case
  proof (cases "startswith (c # cs) sep")
    case True
    with Cons.prems(1) split_aux_nonempty[of sep "[]" "drop (length sep) (c # cs)"]
    show ?thesis by (cases "split_aux sep [] (drop (length sep) (c # cs))") auto
  next
    case False
    with Cons show ?thesis by auto
  qed
qed

lemma two_pieces: "2 \<le> length xs \<Longrightarrow> \<exists>a b rest. xs = a # b # rest"
proof -
  assume "2 \<le> length xs"
  then have "Suc (Suc 0) \<le> length xs" by simp
  then show ?thesis by (auto simp: Suc_le_length_iff)
qed

lemma three_pieces: "2 < length xs \<Longrightarrow> \<exists>a b c rest. xs = a # b # c # rest"
proof -
  assume "2 < length xs"
  then have "Suc (Suc (Suc 0)) \<le> length xs" by simp
  then show ?thesis by (auto simp: Suc_le_length_iff)
qed

lemma parse_plain_parameter:
  assumes "\<not> startswith p LQL_DELIMITER" "parse_value E v = Inr x"
  shows "parse_parameter E (p, v) st =
     (case py_split DOUBLE_DELIMITER p of
        [fld] \<Rightarrow> Inr (st\<lparr>filters := filters st @ [\<lparr>field = fld, filter_name = ''equals'', fvalue = x\<rparr>]\<rparr>)
      | [fld, fname] \<Rightarrow>
          Inr (st\<lparr>filters := filters st @ [\<lparr>field = fld, filter_name = fname, fvalue = x\<rparr>]\<rparr>)
      | _ \<Rightarrow> Inl (Http400 ''Only one filter per field is supported''))"
proof (cases "py_in DOUBLE_DELIMITER p")
  case False
  then have "py_split DOUBLE_DELIMITER p = [p]"
    by (simp add: py_split_def split_aux_not_in)
  with False assms show ?thesis
    by (simp add: parse_parameter_def)
next
  case True
  then have "2 \<le> length (py_split DOUBLE_DELIMITER p)"
    unfolding py_split_def by (intro split_aux_in) (simp_all add: DOUBLE_DELIMITER_def)
  then obtain a b rest where "py_split DOUBLE_DELIMITER p = a # b # rest"
    using two_pieces by blast
  with True assms show ?thesis
    by (cases rest) (simp_all add: parse_parameter_def)
qed

text \<open>
  Claim C5, as the code has it. A plain parameter is examined on its own, whatever the other
  parameters are: its name is split at the operator separator, and the pieces, joined by the
  separator again, give the name back, so that a name with \<open>n\<close> separators has \<open>n + 1\<close>
  pieces. One piece gives an \<^verbatim>\<open>equals\<close> filter, two pieces give the field and
  the operator, and three or more pieces raise "Only one filter per field is supported". Two
  parameters that name the same field with different operators therefore give two filter
  specs for that field.
\<close>

theorem one_operator_per_parameter_name:
  assumes "\<not> startswith p1 LQL_DELIMITER" "parse_value E v1 = Inr x1"
    and "\<not> startswith p2 LQL_DELIMITER" "parse_value E v2 = Inr x2"
  shows "parse_parameter E (p1, v1) st =
           (case py_split DOUBLE_DELIMITER p1 of
              [fld] \<Rightarrow>
                Inr (st\<lparr>filters := filters st @ [\<lparr>field = fld, filter_name = ''equals'', fvalue = x1\<rparr>]\<rparr>)
            | [fld, fname] \<Rightarrow>
                Inr (st\<lparr>filters := filters st @ [\<lparr>field = fld, filter_name = fname, fvalue = x1\<rparr>]\<rparr>)
            | _ \<Rightarrow> Inl (Http400 ''Only one filter per field is supported''))
         \<and> py_join DOUBLE_DELIMITER (py_split DOUBLE_DELIMITER p1) = p1
         \<and> (py_split DOUBLE_DELIMITER p1 = [f, op1] \<longrightarrow> py_split DOUBLE_DELIMITER p2 = [f, op2] \<longrightarrow>
              parse_parameters E [(p1, v1), (p2, v2)] =
                Inr \<lparr>filters = [\<lparr>field = f, filter_name = op1, fvalue = x1\<rparr>,
                                 \<lparr>field = f, filter_name = op2, fvalue = x2\<rparr>],
                      field_query = None, join = JOIN_TYPE_AND, aggregates = [], groups = []\<rparr>)
         \<and> (2 < length (py_split DOUBLE_DELIMITER p1) \<longrightarrow>
              parse_parameters E ((p1, v1) # ps) =
                Inl (Http400 ''Only one filter per field is supported''))"
proof (intro conjI impI)
  show "parse_parameter E (p1, v1) st =
           (case py_split DOUBLE_DELIMITER p1 of
              [fld] \<Rightarrow>
                Inr (st\<lparr>filters := filters st @ [\<lparr>field = fld, filter_name = ''equals'', fvalue = x1\<rparr>]\<rparr>)
            | [fld, fname] \<Rightarrow>
                Inr (st\<lparr>filters := filters st @ [\<lparr>field = fld, filter_name = fname, fvalue = x1\<rparr>]\<rparr>)
            | _ \<Rightarrow> Inl (Http400 ''Only one filter per field is supported''))"
    using assms(1,2) by (rule parse_plain_parameter)
  show "py_join DOUBLE_DELIMITER (py_split DOUBLE_DELIMITER p1) = p1"
    by (simp add: py_split_def split_aux_join)
next
  assume s1: "py_split DOUBLE_DELIMITER p1 = [f, op1]" and s2: "py_split DOUBLE_DELIMITER p2 = [f, op2]"
  have first: "parse_parameter E (p1, v1) parsed_init =
      Inr (parsed_init\<lparr>filters := filters parsed_init @ [\<lparr>field = f, filter_name = op1, fvalue = x1\<rparr>]\<rparr>)"
    by (simp add: parse_plain_parameter[OF assms(1,2)] s1)
  have second: "parse_parameter E (p2, v2) st' =
      Inr (st'\<lparr>filters := filters st' @ [\<lparr>field = f, filter_name = op2, fvalue = x2\<rparr>]\<rparr>)" for st'
    by (simp add: parse_plain_parameter[OF assms(3,4)] s2)
  show "parse_parameters E [(p1, v1), (p2, v2)] =
                Inr \<lparr>filters = [\<lparr>field = f, filter_name = op1, fvalue = x1\<rparr>,
                                 \<lparr>field = f, filter_name = op2, fvalue = x2\<rparr>],
                      field_query = None, join = JOIN_TYPE_AND, aggregates = [], groups = []\<rparr>"
    unfolding parse_parameters_def parse_loop.simps first sum.case second
    by (simp add: parsed_init_def)
next
  assume long: "2 < length (py_split DOUBLE_DELIMITER p1)"
  then obtain a b c rest where "py_split DOUBLE_DELIMITER p1 = a # b # c # rest"
    using three_pieces by blast
  then have "parse_parameter E (p1, v1) parsed_init =
      Inl (Http400 ''Only one filter per field is supported'')"
    by (simp add: parse_plain_parameter[OF assms(1,2)])
  then show "parse_parameters E ((p1, v1) # ps) =
                Inl (Http400 ''Only one filter per field is supported'')"
    by (simp add: parse_parameters_def)
qed

theorem one_operator_per_parameter_name_witness:
  "parse_parameters sample_env [(''first_name__lt'', ''5''), (''first_name__gt'', ''3'')] =
           Inr \<lparr>filters = [\<lparr>field = ''first_name'', filter_name = ''lt'', fvalue = PInt 5\<rparr>,
                            \<lparr>field = ''first_name'', filter_name = ''gt'', fvalue = PInt 3\<rparr>],
                 field_query = None, join = JOIN_TYPE_AND, aggregates = [], groups = []\<rparr>
         \<and> parse_parameters sample_env [(''age__lt__gt__eq'', ''5''), (''first_name__gt'', ''3'')] =
           Inl (Http400 ''Only one filter per field is supported'')
         \<and> py_join DOUBLE_DELIMITER [''age'', ''lt'', ''gt'', ''eq''] = ''age__lt__gt__eq''"
proof -
  have v1: "parse_value sample_env ''5'' = Inr (PInt 5)"
    and v2: "parse_value sample_env ''3'' = Inr (PInt 3)"
    by code_simp+
  have plain: "\<not> startswith ''first_name__lt'' LQL_DELIMITER" "\<not> startswith ''first_name__gt'' LQL_DELIMITER"
    "\<not> startswith ''age__lt__gt__eq'' LQL_DELIMITER"
    by code_simp+
  have s1: "py_split DOUBLE_DELIMITER ''first_name__lt'' = [''first_name'', ''lt'']"
    and s2: "py_split DOUBLE_DELIMITER ''first_name__gt'' = [''first_name'', ''gt'']"
    and s3: "py_split DOUBLE_DELIMITER ''age__lt__gt__eq'' = [''age'', ''lt'', ''gt'', ''eq'']"
    by code_simp+
  note two = one_operator_per_parameter_name[OF plain(1) v1 plain(2) v2,
      of parsed_init "''first_name''" "''lt''" "''gt''" "[]"]
  note many = one_operator_per_parameter_name[OF plain(3) v1 plain(2) v2,
      of parsed_init "''age''" "''lt''" "''gt''" "[(''first_name__gt'', ''3'')]"]
  from two s1 s2 have a: "parse_parameters sample_env [(''first_name__lt'', ''5''), (''first_name__gt'', ''3'')] =
           Inr \<lparr>filters = [\<lparr>field = ''first_name'', filter_name = ''lt'', fvalue = PInt 5\<rparr>,
                            \<lparr>field = ''first_name'', filter_name = ''gt'', fvalue = PInt 3\<rparr>],
                 field_query = None, join = JOIN_TYPE_AND, aggregates = [], groups = []\<rparr>"
    by blast
  from many s3 have b: "parse_parameters sample_env [(''age__lt__gt__eq'', ''5''), (''first_name__gt'', ''3'')] =
           Inl (Http400 ''Only one filter per field is supported'')"
    by simp
  from many s3 have c: "py_join DOUBLE_DELIMITER [''age'', ''lt'', ''gt'', ''eq''] = ''age__lt__gt__eq''"
    by simp
  from a b c show ?thesis by (intro conjI)
qed

text \<open>The claim as the spec states it fails on the two keys of its own example.\<close>

theorem two_operators_same_field_counterexample:
  "parse_parameters sample_env [(''age__lt'', ''5''), (''age__gt'', ''3'')] =
           Inr \<lparr>filters = [\<lparr>field = ''age'', filter_name = ''lt'', fvalue = PInt 5\<rparr>,
                            \<lparr>field = ''age'', filter_name = ''gt'', fvalue = PInt 3\<rparr>],
                 field_query = None, join = JOIN_TYPE_AND, aggregates = [], groups = []\<rparr>"
  by code_simp

subsection \<open>Field resolution\<close>

text \<open>
  The constructor does not set \<^verbatim>\<open>self.slug\<close>. On an object it has built, reading
  the attribute in the handler of the failed first lookup raises AttributeError, which the
  outer handler reports as an invalid element: the comparison with the slug, the resolver
  and the redirect are never reached.
\<close>

lemma missing_slug_attribute:
  assumes "py_split ''.'' (field f) = part # rest"
    "part \<noteq> ''_length''" "part \<noteq> ''_area''" "part \<noteq> ''_type''" "map_of kvs part = None"
  shows "resolve E (Query_init d l K) ps f (PDict kvs) = Inl (Http400 (''Invalid element: '' @ field f))"
  using assms by (simp add: resolve_def Query_init_def)

text \<open>
  Claim C7. A filter on \<^verbatim>\<open>other.x\<close> over a record without the key
  \<^verbatim>\<open>other\<close> should redirect to the source registered under that name, or fail with
  "Unknown source: other" when there is none. On a query built by the constructor,
  \<^verbatim>\<open>execute\<close> fails with "Invalid element: other.x", whatever the resolver
  \<open>K\<close> knows.
\<close>

theorem failed_first_lookup_never_reaches_resolver:
  "execute sample_env (Query_init [PDict [(''v'', PInt 7)]] 10 K) [(''other.x'', ''1'')]
     = Inl (Http400 ''Invalid element: other.x'')
   \<and> execute sample_env
       (Query_init [PDict [(''v'', PInt 7)]] 10
          (\<lambda>s. if s = ''other'' then Some (\<lambda>ps. Inr (Rows [PInt (int (length ps))])) else None))
       [(''other.x'', ''1'')]
     = Inl (Http400 ''Invalid element: other.x'')
   \<and> execute sample_env (Query_init [PDict [(''v'', PInt 7)]] 10 (\<lambda>s. None)) [(''other.x'', ''1'')]
     = Inl (Http400 ''Invalid element: other.x'')"
  by (intro conjI; code_simp)

text \<open>
  Claim C10. A filter whose path starts with the dataset's own slug, here
  \<^verbatim>\<open>scenario\<close>, over records without that key should have the failed lookup
  swallowed and go on with the payload: \<^verbatim>\<open>scenario.v = 5\<close> would then match the
  records at positions 0 and 2. On a query built by the constructor the same missing
  attribute makes \<^verbatim>\<open>execute\<close> fail with "Invalid element" instead.
\<close>

theorem failed_own_slug_lookup_is_not_swallowed:
  "execute sample_env (Query_init scenario_data 10 K) [(''scenario.v'', ''5'')]
     = Inl (Http400 ''Invalid element: scenario.v'')
   \<and> execute sample_env (Query_init scenario_data 10 K) [(''scenario'', ''5'')]
     = Inl (Http400 ''Invalid element: scenario'')
   \<and> execute sample_env (Query_init scenario_data 10 K) [(''v'', ''5'')]
     = Inr (Rows [scenario_data ! 0, scenario_data ! 2])"
  by (intro conjI; code_simp)

text \<open>
  The branches behind the attribute do what the two claims describe: were \<open>slug\<close> set, a
  failed first lookup of the own slug would be swallowed, and a failed first lookup of
  another name would redirect to the source of that name or fail with "Unknown source".
\<close>

lemma resolve_parts_no_return_later:
  "0 < index \<Longrightarrow> resolve_parts E Q ps fld index parts v \<noteq> Inr (Return r)"
  by (induction parts arbitrary: index v) (auto split: sum.splits exn.splits)

lemma resolve_parts_own_slug:
  assumes "slug Q = Some s" "s \<noteq> ''_length''" "s \<noteq> ''_area''" "s \<noteq> ''_type''" "map_of kvs s = None"
  shows "resolve_parts E Q ps fld 0 (s # rest) (PDict kvs)
           = resolve_parts E Q ps fld (Suc 0) rest (PDict kvs)"
  using assms by simp

lemma own_slug_branch_with_slug_set:
  assumes "slug Q = Some s" "py_split ''.'' (field f) = s # rest"
    "s \<noteq> ''_length''" "s \<noteq> ''_area''" "s \<noteq> ''_type''" "map_of kvs s = None"
  shows "resolve_parts E Q ps (field f) 0 (py_split ''.'' (field f)) (PDict kvs)
           = resolve_parts E Q ps (field f) (Suc 0) rest (PDict kvs)
         \<and> resolve E Q ps f (PDict kvs) \<noteq> Inr (Return r)
         \<and> (rest = [] \<longrightarrow>
              resolve E Q ps f (PDict kvs) = Inr (Value (PDict kvs))
              \<and> scan_rows E Q ps f row_id (PDict kvs # items) filter_results
                  = scan_rows E Q ps f (Suc row_id) items
                      (if operation f (PDict kvs) then filter_results @ [row_id] else filter_results))"
proof -
  have step: "resolve_parts E Q ps (field f) 0 (py_split ''.'' (field f)) (PDict kvs)
           = resolve_parts E Q ps (field f) (Suc 0) rest (PDict kvs)"
    unfolding assms(2) using assms by (intro resolve_parts_own_slug)
  have noret: "resolve E Q ps f (PDict kvs) \<noteq> Inr (Return r)"
    unfolding resolve_def step
    using resolve_parts_no_return_later[of "Suc 0" E Q ps "field f" rest "PDict kvs" r]
    by (auto split: sum.splits exn.splits)
  have whole: "resolve E Q ps f (PDict kvs) = Inr (Value (PDict kvs))" if "rest = []"
    unfolding resolve_def step using that by simp
  show ?thesis using step noret whole by simp
qed

lemma resolve_parts_other_slug:
  assumes "slug Q = Some s" "part \<noteq> s" "part \<noteq> ''_length''" "part \<noteq> ''_area''" "part \<noteq> ''_type''"
    "map_of kvs part = None"
  shows "resolve_parts E Q ps fld 0 (part # rest) (PDict kvs)
           = (case klass Q part of
                None \<Rightarrow> Inl (Http400 (''Unknown source: '' @ part))
              | Some get_all \<Rightarrow> (case get_all ps of Inl e \<Rightarrow> Inl e | Inr r \<Rightarrow> Inr (Return r)))"
  using assms by simp

lemma scan_rows_prefix:
  "\<forall>item\<in>set before. \<exists>v. resolve E Q ps f item = Inr (Value v) \<Longrightarrow>
     \<exists>acc'. scan_rows E Q ps f i (before @ items) acc
              = scan_rows E Q ps f (i + length before) items acc'"
proof (induction before arbitrary: i acc)
  case Nil
  then show ?case by auto
next
  case (Cons item before)
  then obtain v where v: "resolve E Q ps f item = Inr (Value v)" by auto
  from Cons.IH[of "Suc i" "if operation f v then acc @ [i] else acc"] Cons.prems
  show ?case by (simp add: v)
qed

lemma filter_loop_prefix:
  "\<forall>g\<in>set pre. \<exists>m. scan_rows E Q ps g 0 (data Q) [] = Inr (Value m) \<Longrightarrow>
     \<exists>qr. filter_loop E Q ps jt (pre @ fs) acc = filter_loop E Q ps jt fs qr"
proof (induction pre arbitrary: acc)
  case Nil
  then show ?case by auto
next
  case (Cons g pre)
  then obtain m where m: "scan_rows E Q ps g 0 (data Q) [] = Inr (Value m)" by auto
  from Cons.IH[of "combine jt acc m"] Cons.prems
  show ?case by (simp add: m)
qed

lemma redirect_branch_with_slug_set:
  assumes parse: "parse_parameters E ps = Inr P"
    and compile: "get_filter_functions_map E (filters P) = Inr (pre @ f # post)"
    and earlier_filters: "\<forall>g\<in>set pre. \<exists>m. scan_rows E Q ps g 0 (data Q) [] = Inr (Value m)"
    and rows: "data Q = before @ PDict kvs # after"
    and earlier_rows: "\<forall>item\<in>set before. \<exists>v. resolve E Q ps f item = Inr (Value v)"
    and path: "py_split ''.'' (field f) = part # rest"
    and not_geometry: "part \<noteq> ''_length''" "part \<noteq> ''_area''" "part \<noteq> ''_type''"
    and lookup_fails: "map_of kvs part = None"
    and own_slug: "slug Q = Some s" "part \<noteq> s"
  shows "(klass Q part = Some get_all \<longrightarrow> get_all ps = Inr r \<longrightarrow> execute E Q ps = Inr r)
       \<and> (klass Q part = None \<longrightarrow> execute E Q ps = Inl (Http400 (''Unknown source: '' @ part)))"
proof -
  have parts: "resolve_parts E Q ps (field f) 0 (py_split ''.'' (field f)) (PDict kvs)
           = (case klass Q part of
                None \<Rightarrow> Inl (Http400 (''Unknown source: '' @ part))
              | Some get_all \<Rightarrow> (case get_all ps of Inl e \<Rightarrow> Inl e | Inr r \<Rightarrow> Inr (Return r)))"
    unfolding path using own_slug not_geometry lookup_fails by (intro resolve_parts_other_slug)
  obtain acc' where scan: "scan_rows E Q ps f 0 (data Q) []
      = scan_rows E Q ps f (0 + length before) (PDict kvs # after) acc'"
    using scan_rows_prefix[OF earlier_rows, of 0 "PDict kvs # after" "[]"] rows by auto
  obtain qr where loop: "filter_loop E Q ps (join P) (pre @ f # post) {}
      = filter_loop E Q ps (join P) (f # post) qr"
    using filter_loop_prefix[OF earlier_filters, of "join P" "f # post" "{}"] by auto
  have found: "execute E Q ps = Inr r" if "klass Q part = Some get_all" "get_all ps = Inr r"
  proof -
    have "resolve E Q ps f (PDict kvs) = Inr (Return r)"
      using that by (simp add: resolve_def parts)
    then have "scan_rows E Q ps f 0 (data Q) [] = Inr (Return r)"
      by (simp add: scan)
    then have "filter_loop E Q ps (join P) (pre @ f # post) {} = Inr (Return r)"
      by (simp add: loop)
    then show ?thesis
      by (simp add: execute_def parse compile)
  qed
  have missing: "execute E Q ps = Inl (Http400 (''Unknown source: '' @ part))" if "klass Q part = None"
  proof -
    have "resolve E Q ps f (PDict kvs) = Inl (Http400 (''Unknown source: '' @ part))"
      using that by (simp add: resolve_def parts)
    then have "scan_rows E Q ps f 0 (data Q) [] = Inl (Http400 (''Unknown source: '' @ part))"
      by (simp add: scan)
    then have "filter_loop E Q ps (join P) (pre @ f # post) {} = Inl (Http400 (''Unknown source: '' @ part))"
      by (simp add: loop)
    then show ?thesis
      by (simp add: execute_def parse compile)
  qed
  show ?thesis using found missing by blast
qed

subsection \<open>The order of the retrieved records\<close>

lemma itemgetter_map:
  "\<forall>j\<in>set js. j < length xs \<Longrightarrow> itemgetter js xs = Inr (map ((!) xs) js)"
  by (induction js) auto

text \<open>
  Claim C2, as the code has it. With at least one filter and a non-empty set of surviving
  positions inside the dataset, the retrieval returns the records at those positions in the
  order in which the set is iterated (\<^verbatim>\<open>list(query_results)\<close>), each once,
  cut to the limit when two or more survive. Nothing sorts the positions: the result is in
  ascending position order when the iteration of the set is ascending. The result is a
  function of the query, the dataset and that iteration order.
\<close>

theorem retrieval_follows_set_iteration:
  assumes "fs \<noteq> []" "finite query_results" "query_results \<noteq> {}"
    "\<forall>i\<in>query_results. i < length queryset"
    "set (set_iter E query_results) = query_results" "distinct (set_iter E query_results)"
  shows "get_data E Q queryset fs query_results =
           Inr ((if card query_results = 1 then (\<lambda>items. items) else (\<lambda>items. py_slice items 0 (limit Q)))
                  (map ((!) queryset) (set_iter E query_results)))
         \<and> (sorted (set_iter E query_results) \<longrightarrow>
              get_data E Q queryset fs query_results =
                Inr ((if card query_results = 1 then (\<lambda>items. items) else (\<lambda>items. py_slice items 0 (limit Q)))
                       (map ((!) queryset) (sorted_list_of_set query_results))))"
proof -
  have items: "itemgetter (set_iter E query_results) queryset
                 = Inr (map ((!) queryset) (set_iter E query_results))"
    using assms(4,5) by (intro itemgetter_map) simp
  have "card query_results \<noteq> 0"
    using assms(2,3) by simp
  then have first: "get_data E Q queryset fs query_results =
           Inr ((if card query_results = 1 then (\<lambda>items. items) else (\<lambda>items. py_slice items 0 (limit Q)))
                  (map ((!) queryset) (set_iter E query_results)))"
    using assms(1) by (simp add: get_data_def items)
  have "set_iter E query_results = sorted_list_of_set query_results"
    if "sorted (set_iter E query_results)"
    using that assms(5,6) by (metis sorted_list_of_set.idem_if_sorted_distinct)
  with first show ?thesis by simp
qed

theorem retrieval_follows_set_iteration_witness:
  "get_data sample_env scenario_query scenario_data [()] {0, 2}
     = Inr [PDict [(''id'', PInt 1), (''v'', PInt 5)], PDict [(''id'', PInt 3), (''v'', PInt 5)]]"
proof -
  have "set_iter sample_env {0, 2} = [0, 2]"
    by (simp add: sample_env_def sample_parse_value_def)
  with retrieval_follows_set_iteration[of "[()]" "{0, 2}" scenario_data sample_env scenario_query]
  show ?thesis
    by (simp add: scenario_data_def scenario_query_def Query_init_def py_slice_def slice_bound_def)
qed

text \<open>
  The claim as the spec states it fails when the set is not iterated in ascending order:
  with the slot order, the positions 1 and 8 come out as 8, 1, and the record at position 8
  is returned before the record at position 1.
\<close>

theorem retrieval_order_counterexample:
  "execute sample_env_slots \<lparr>data = nine_records, limit = 10, klass = (\<lambda>s. None), slug = None\<rparr>
     [(''v'', ''1'')]
   = Inr (Rows [PDict [(''id'', PInt 8), (''v'', PInt 1)], PDict [(''id'', PInt 1), (''v'', PInt 1)]])
   \<and> set_iter sample_env_slots {1, 8} = [8, 1]"
  by (intro conjI; code_simp)

subsection \<open>Grouping\<close>

lemma item_keys_rows:
  "item_keys g rows = Inr krs \<Longrightarrow>
     map snd krs = rows \<and> (\<forall>kr\<in>set krs. getitem (snd kr) g = Inr (fst kr))"
  by (induction rows arbitrary: krs) (auto split: sum.splits)

lemma item_keys_total:
  "\<forall>row\<in>set rows. \<exists>kvs v. row = PDict kvs \<and> map_of kvs g = Some v \<and> hashable v \<Longrightarrow>
     \<exists>krs. item_keys g rows = Inr krs \<and> list_all (\<lambda>kr. hashable (fst kr)) krs"
  by (induction rows) auto

lemma py_eq_key_code: "\<not> is_nan a \<Longrightarrow> \<not> is_nan b \<Longrightarrow> py_eq a b \<longleftrightarrow> key_code a = key_code b"
  by (simp add: py_eq_def)

lemma py_lt_key_code: "\<not> is_nan a \<Longrightarrow> \<not> is_nan b \<Longrightarrow> py_lt a b \<longleftrightarrow> key_code a < key_code b"
  by (simp add: py_lt_def)

lemma filter_same_key:
  "item_keys g rows = Inr krs \<Longrightarrow>
     map snd (filter (\<lambda>p. py_eq (fst p) k) krs) = filter (same_key g k) rows"
  by (induction rows arbitrary: krs) (auto simp: same_key_def split: sum.splits)

lemma insort_by_key_insort_key:
  "\<not> is_nan (fst x) \<Longrightarrow> \<forall>p\<in>set ys. \<not> is_nan (fst p) \<Longrightarrow>
     insort_by_key fst x ys = insort_key (\<lambda>kr. key_code (fst kr)) x ys"
  by (induction ys) (auto simp: py_lt_key_code)

lemma py_sorted_sort_key:
  "\<forall>p\<in>set krs. \<not> is_nan (fst p) \<Longrightarrow> py_sorted fst krs = sort_key (\<lambda>kr. key_code (fst kr)) krs"
proof (induction krs)
  case Nil
  then show ?case by (simp add: py_sorted_def)
next
  case (Cons kr krs)
  then have IH: "py_sorted fst krs = sort_key (\<lambda>kr. key_code (fst kr)) krs" by simp
  have "insort_by_key fst kr (sort_key (\<lambda>kr. key_code (fst kr)) krs)
          = insort_key (\<lambda>kr. key_code (fst kr)) kr (sort_key (\<lambda>kr. key_code (fst kr)) krs)"
    using Cons.prems by (intro insort_by_key_insort_key) auto
  with IH show ?case by (simp add: py_sorted_def)
qed

lemma groupby_concat: "concat (map snd (groupby kxs)) = map snd kxs"
proof (induction kxs rule: groupby.induct)
  case 1
  then show ?case by simp
next
  case (2 kx kxs)
  have "map snd kxs = map snd (takeWhile (\<lambda>p. py_eq (fst p) (fst kx)) kxs)
          @ map snd (dropWhile (\<lambda>p. py_eq (fst p) (fst kx)) kxs)"
    by (simp flip: map_append)
  with 2 show ?case by simp
qed

lemma dropWhile_sorted_greater:
  "sorted (map f (x # xs)) \<Longrightarrow> \<forall>y\<in>set (dropWhile (\<lambda>y. f y = f x) xs). f x < f y"
  for f :: "'a \<Rightarrow> 'b::linorder"
proof (induction xs)
  case Nil
  then show ?case by simp
next
  case (Cons a xs)
  show ?case
  proof (cases "f a = f x")
    case True
    with Cons show ?thesis by simp
  next
    case False
    with Cons.prems have "f x < f a" by auto
    moreover from Cons.prems have "\<forall>y\<in>set xs. f a \<le> f y" by auto
    ultimately show ?thesis using False by auto
  qed
qed

lemma takeWhile_sorted_filter:
  "sorted (map f (x # xs)) \<Longrightarrow> takeWhile (\<lambda>y. f y = f x) xs = filter (\<lambda>y. f y = f x) xs"
  for f :: "'a \<Rightarrow> 'b::linorder"
proof (induction xs)
  case Nil
  then show ?case by simp
next
  case (Cons a xs)
  show ?case
  proof (cases "f a = f x")
    case True
    with Cons show ?thesis by simp
  next
    case False
    with Cons.prems have "\<forall>y\<in>set xs. f x < f y" by fastforce
    then have "filter (\<lambda>y. f y = f x) xs = []" by (auto simp: filter_empty_conv)
    with False show ?thesis by simp
  qed
qed

lemma sorted_dropWhile: "sorted (map f xs) \<Longrightarrow> sorted (map f (dropWhile P xs))"
  by (induction xs) auto

lemma groupby_keys_subset: "fst ` set (groupby kxs) \<subseteq> fst ` set kxs"
proof (induction kxs rule: groupby.induct)
  case 1
  then show ?case by simp
next
  case (2 kx kxs)
  have "set (dropWhile (\<lambda>p. py_eq (fst p) (fst kx)) kxs) \<subseteq> set kxs"
    by (auto dest: set_dropWhileD)
  with 2 show ?case by auto
qed

lemma groupby_sorted:
  "sorted (map (\<lambda>kr. key_code (fst kr)) kxs) \<Longrightarrow> \<forall>p\<in>set kxs. \<not> is_nan (fst p) \<Longrightarrow>
     distinct (map (\<lambda>run. key_code (fst run)) (groupby kxs))
     \<and> (\<forall>run\<in>set (groupby kxs).
           snd run = map snd (filter (\<lambda>p. key_code (fst p) = key_code (fst run)) kxs))"
proof (induction kxs rule: groupby.induct)
  case 1
  then show ?case by simp
next
  case (2 kx kxs)
  let ?E = "\<lambda>p. py_eq (fst p) (fst kx)"
  let ?P = "\<lambda>p. key_code (fst p) = key_code (fst kx)"
  have same: "?E p \<longleftrightarrow> ?P p" if "p \<in> set kxs" for p
    using that "2.prems"(2) by (simp add: py_eq_key_code)
  have tw_eq: "takeWhile ?E kxs = takeWhile ?P kxs"
    using same by (intro takeWhile_cong) auto
  have dw_eq: "dropWhile ?E kxs = dropWhile ?P kxs"
    using same by (intro dropWhile_cong) auto
  let ?rest = "dropWhile ?P kxs"
  have unfold: "groupby (kx # kxs) = (fst kx, snd kx # map snd (takeWhile ?P kxs)) # groupby ?rest"
    by (simp add: tw_eq dw_eq)
  have srt: "sorted (map (\<lambda>kr. key_code (fst kr)) (dropWhile ?E kxs))"
    using "2.prems"(1) by (intro sorted_dropWhile) simp
  have nn: "\<forall>p\<in>set (dropWhile ?E kxs). \<not> is_nan (fst p)"
    using "2.prems"(2) by (auto dest: set_dropWhileD)
  note IH = "2.IH"[OF srt nn, unfolded dw_eq]
  have greater: "\<forall>y\<in>set ?rest. key_code (fst kx) < key_code (fst y)"
    using dropWhile_sorted_greater[OF "2.prems"(1)] .
  have tw: "takeWhile ?P kxs = filter ?P kxs"
    using takeWhile_sorted_filter[OF "2.prems"(1)] .
  have run_keys: "\<forall>run\<in>set (groupby ?rest). key_code (fst kx) < key_code (fst run)"
  proof
    fix run assume "run \<in> set (groupby ?rest)"
    then have "fst run \<in> fst ` set ?rest" using groupby_keys_subset by blast
    then show "key_code (fst kx) < key_code (fst run)" using greater by auto
  qed
  have dist: "distinct (map (\<lambda>run. key_code (fst run)) (groupby (kx # kxs)))"
    unfolding unfold using IH run_keys by auto
  have later: "snd run = map snd (filter (\<lambda>p. key_code (fst p) = key_code (fst run)) (kx # kxs))"
    if "run \<in> set (groupby ?rest)" for run
  proof -
    from that run_keys have ne: "key_code (fst kx) \<noteq> key_code (fst run)" by auto
    have "filter (\<lambda>p. key_code (fst p) = key_code (fst run)) (takeWhile ?P kxs) = []"
      using ne by (auto simp: filter_empty_conv dest: set_takeWhileD)
    then have "filter (\<lambda>p. key_code (fst p) = key_code (fst run)) kxs
        = filter (\<lambda>p. key_code (fst p) = key_code (fst run)) ?rest"
      by (metis append_Nil filter_append takeWhile_dropWhile_id)
    with IH that ne show ?thesis by auto
  qed
  show ?case unfolding unfold using dist[unfolded unfold] later tw by auto
qed

lemma pdict_set_fresh:
  "key_code k \<notin> (\<lambda>p. key_code (fst p)) ` set d \<Longrightarrow> pdict_set k v d = d @ [(k, v)]"
  by (induction d) (auto simp: py_eq_def)

lemma store_groups_distinct:
  "distinct (map (\<lambda>run. key_code (fst run)) runs) \<Longrightarrow>
   (\<lambda>p. key_code (fst p)) ` set runs \<inter> (\<lambda>p. key_code (fst p)) ` set d = {} \<Longrightarrow>
     store_groups runs d = d @ runs"
proof (induction runs arbitrary: d)
  case Nil
  then show ?case by simp
next
  case (Cons run runs)
  have fresh: "pdict_set (fst run) (snd run) d = d @ [run]"
    using Cons.prems(2) by (subst pdict_set_fresh) auto
  have "store_groups runs (d @ [run]) = (d @ [run]) @ runs"
    using Cons.prems by (intro Cons.IH) auto
  then show ?case by (simp add: fresh)
qed

lemma group_rows_partition:
  assumes "group_rows g rows = Inr gs"
    and no_nan: "\<forall>row\<in>set rows. \<forall>k. getitem row g = Inr k \<longrightarrow> \<not> is_nan k"
  shows "mset (concat (map snd gs)) = mset rows
       \<and> (\<forall>run\<in>set gs. snd run = filter (same_key g (fst run)) rows)
       \<and> distinct (map (\<lambda>run. key_code (fst run)) gs)"
proof -
  from assms(1) obtain krs where krs: "item_keys g rows = Inr krs"
    and gs: "gs = store_groups (groupby (py_sorted fst krs)) []"
    by (auto simp: group_rows_def split: sum.splits if_splits)
  have nn: "\<forall>p\<in>set krs. \<not> is_nan (fst p)"
  proof
    fix p assume p: "p \<in> set krs"
    with item_keys_rows[OF krs] have "getitem (snd p) g = Inr (fst p)" and "snd p \<in> set rows"
      by (auto simp: image_iff dest!: arg_cong[where f = set])
    with no_nan show "\<not> is_nan (fst p)" by blast
  qed
  let ?sorted = "sort_key (\<lambda>kr. key_code (fst kr)) krs"
  have ps: "py_sorted fst krs = ?sorted" using nn by (rule py_sorted_sort_key)
  have srt: "sorted (map (\<lambda>kr. key_code (fst kr)) ?sorted)" by simp
  have nn': "\<forall>p\<in>set ?sorted. \<not> is_nan (fst p)" using nn by simp
  note G = groupby_sorted[OF srt nn']
  have gs': "gs = groupby ?sorted"
    unfolding gs ps using G by (subst store_groups_distinct) auto
  have "mset (concat (map snd gs)) = mset (map snd ?sorted)"
    by (simp add: gs' groupby_concat)
  also have "\<dots> = mset (map snd krs)" by simp
  also have "\<dots> = mset rows" using item_keys_rows[OF krs] by simp
  finally have m: "mset (concat (map snd gs)) = mset rows" .
  have "snd run = filter (same_key g (fst run)) rows" if "run \<in> set gs" for run
  proof -
    from that have "fst run \<in> fst ` set ?sorted"
      using groupby_keys_subset[of ?sorted] gs' by blast
    then have rn: "\<not> is_nan (fst run)" using nn' by auto
    from that G gs' have "snd run = map snd (filter (\<lambda>p. key_code (fst p) = key_code (fst run)) ?sorted)"
      by auto
    also have "filter (\<lambda>p. key_code (fst p) = key_code (fst run)) ?sorted
        = filter (\<lambda>p. key_code (fst p) = key_code (fst run)) krs"
      by (rule sort_key_stable)
    also have "\<dots> = filter (\<lambda>p. py_eq (fst p) (fst run)) krs"
      using nn rn by (intro filter_cong) (auto simp: py_eq_key_code)
    finally show ?thesis by (simp add: filter_same_key[OF krs])
  qed
  with m G gs' show ?thesis by auto
qed

lemma map_of_dict_set: "map_of (dict_set k v d) k' = (if k' = k then Some v else map_of d k')"
  by (induction d) auto

lemma process_groups_loop_lookup:
  "process_groups_loop gs rows res0 = Inr res \<Longrightarrow> map_of res g = Some d \<Longrightarrow>
     group_rows g rows = Inr d \<or> map_of res0 g = Some d"
proof (induction gs arbitrary: res0)
  case Nil
  then show ?case by simp
next
  case (Cons g0 gs)
  from Cons.prems(1) obtain d0 where d0: "group_rows g0 rows = Inr d0"
    and rest: "process_groups_loop gs rows (dict_set g0 d0 res0) = Inr res"
    by (auto split: sum.splits)
  from Cons.IH[OF rest Cons.prems(2)] d0 show ?case
    by (auto simp: map_of_dict_set split: if_splits)
qed

lemma group_rows_total:
  assumes "\<forall>row\<in>set rows. \<exists>kvs v. row = PDict kvs \<and> map_of kvs g = Some v \<and> hashable v"
  shows "\<exists>d. group_rows g rows = Inr d"
  using item_keys_total[OF assms] by (auto simp: group_rows_def)

lemma process_groups_loop_total:
  "\<forall>g\<in>set gs. \<exists>d. group_rows g rows = Inr d \<Longrightarrow>
     \<exists>res. process_groups_loop gs rows res0 = Inr res
       \<and> (\<forall>g. map_of res0 g \<noteq> None \<or> g \<in> set gs \<longrightarrow> map_of res g \<noteq> None)"
proof (induction gs arbitrary: res0)
  case Nil
  then show ?case by simp
next
  case (Cons g0 gs)
  then obtain d0 where d0: "group_rows g0 rows = Inr d0" by auto
  from Cons.IH[of "dict_set g0 d0 res0"] Cons.prems
  obtain res where res: "process_groups_loop gs rows (dict_set g0 d0 res0) = Inr res"
    and keys: "\<forall>g. map_of (dict_set g0 d0 res0) g \<noteq> None \<or> g \<in> set gs \<longrightarrow> map_of res g \<noteq> None"
    by auto
  show ?case
    using res keys by (auto simp: d0 map_of_dict_set)
qed

text \<open>
  Claim C9, as the code has it. Take a group field \<open>g\<close> whose value is NaN in no row.
  Whenever \<^verbatim>\<open>process_groups\<close> returns a grouping, the lists of rows under the
  key values of \<open>g\<close>, concatenated, hold exactly the input rows, each as often as in the
  input; the list under a key is the sequence of the input rows whose value of \<open>g\<close> equals
  that key, in input order. A grouping is returned when every row is a dictionary that
  carries each group field with a value that can be a dictionary key.
\<close>

theorem grouping_partitions_rows:
  "((\<forall>row\<in>set rows. \<forall>k. getitem row g = Inr k \<longrightarrow> \<not> is_nan k) \<longrightarrow>
      process_groups rows gs = Inr (Grouped res) \<longrightarrow> map_of res g = Some d \<longrightarrow>
        mset (concat (map snd d)) = mset rows
        \<and> (\<forall>run\<in>set d. snd run = filter (same_key g (fst run)) rows))
   \<and> (gs \<noteq> [] \<longrightarrow>
        (\<forall>g\<in>set gs. \<forall>row\<in>set rows. \<exists>kvs v. row = PDict kvs \<and> map_of kvs g = Some v \<and> hashable v) \<longrightarrow>
        (\<exists>res. process_groups rows gs = Inr (Grouped res) \<and> (\<forall>g\<in>set gs. map_of res g \<noteq> None)))"
proof (intro conjI impI)
  assume no_nan: "\<forall>row\<in>set rows. \<forall>k. getitem row g = Inr k \<longrightarrow> \<not> is_nan k"
    and run: "process_groups rows gs = Inr (Grouped res)" and look: "map_of res g = Some d"
  from run have "process_groups_loop gs rows [] = Inr res"
    by (auto simp: process_groups_def split: if_splits sum.splits)
  from process_groups_loop_lookup[OF this look] have "group_rows g rows = Inr d"
    by simp
  from group_rows_partition[OF this no_nan]
  show "mset (concat (map snd d)) = mset rows"
    and "\<forall>run\<in>set d. snd run = filter (same_key g (fst run)) rows"
    by simp_all
next
  assume ne: "gs \<noteq> []"
    and ok: "\<forall>g\<in>set gs. \<forall>row\<in>set rows. \<exists>kvs v. row = PDict kvs \<and> map_of kvs g = Some v \<and> hashable v"
  then have "\<forall>g\<in>set gs. \<exists>d. group_rows g rows = Inr d"
    using group_rows_total by blast
  from process_groups_loop_total[OF this, of "[]"]
  show "\<exists>res. process_groups rows gs = Inr (Grouped res) \<and> (\<forall>g\<in>set gs. map_of res g \<noteq> None)"
    using ne by (auto simp: process_groups_def)
qed

theorem grouping_partitions_rows_witness:
  "process_groups scenario_data [''v'']
     = Inr (Grouped [(''v'',
         [(PInt 5, [PDict [(''id'', PInt 1), (''v'', PInt 5)], PDict [(''id'', PInt 3), (''v'', PInt 5)]]),
          (PInt 7, [PDict [(''id'', PInt 2), (''v'', PInt 7)]])])])
   \<and> mset [PDict [(''id'', PInt 1), (''v'', PInt 5)], PDict [(''id'', PInt 3), (''v'', PInt 5)],
           PDict [(''id'', PInt 2), (''v'', PInt 7)]]
     = mset scenario_data
   \<and> (\<exists>res. process_groups scenario_data [''v''] = Inr (Grouped res) \<and> map_of res ''v'' \<noteq> None)"
proof -
  let ?d = "[(PInt 5, [PDict [(''id'', PInt 1), (''v'', PInt 5)], PDict [(''id'', PInt 3), (''v'', PInt 5)]]),
          (PInt 7, [PDict [(''id'', PInt 2), (''v'', PInt 7)]])]"
  have run: "process_groups scenario_data [''v''] = Inr (Grouped [(''v'', ?d)])"
    by code_simp
  have rows_ok: "\<forall>g\<in>set [''v'']. \<forall>row\<in>set scenario_data.
      \<exists>kvs v. row = PDict kvs \<and> map_of kvs g = Some v \<and> hashable v"
    by (simp add: scenario_data_def)
  have no_nan: "\<forall>row\<in>set scenario_data. \<forall>k. getitem row ''v'' = Inr k \<longrightarrow> \<not> is_nan k"
    by (auto simp: scenario_data_def)
  note inst = grouping_partitions_rows[of scenario_data "''v''" "[''v'']" "[(''v'', ?d)]" ?d]
  have look: "map_of [(''v'', ?d)] ''v'' = Some ?d"
    by simp
  from inst no_nan run look have "mset (concat (map snd ?d)) = mset scenario_data"
    by blast
  then have flat: "mset [PDict [(''id'', PInt 1), (''v'', PInt 5)], PDict [(''id'', PInt 3), (''v'', PInt 5)],
           PDict [(''id'', PInt 2), (''v'', PInt 7)]] = mset scenario_data"
    by simp
  have "[''v''] \<noteq> ([] :: string list)"
    by simp
  with inst rows_ok
  have "\<exists>res. process_groups scenario_data [''v''] = Inr (Grouped res) \<and> (\<forall>g\<in>set [''v'']. map_of res g \<noteq> None)"
    by blast
  then have total: "\<exists>res. process_groups scenario_data [''v''] = Inr (Grouped res) \<and> map_of res ''v'' \<noteq> None"
    by simp
  from run flat total show ?thesis
    by (intro conjI)
qed

text \<open>
  The claim as the spec states it fails on a NaN key. The rows with the values 1.0, NaN,
  1.0 of \<open>v\<close> are left in this order by the sort, since no value is smaller than the one
  before it; they form three runs, and the run of the third row replaces the dictionary
  entry of the first: every row carries \<open>v\<close>, and the first row is in no group.
\<close>

theorem nan_key_loses_row_counterexample:
  "process_groups nan_rows [''v'']
     = Inr (Grouped [(''v'',
         [(PFloat (Finite 1), [PDict [(''id'', PInt 3), (''v'', PFloat (Finite 1))]]),
          (PFloat NaN, [PDict [(''id'', PInt 2), (''v'', PFloat NaN)]])])])
   \<and> mset (concat (map snd
         [(PFloat (Finite 1), [PDict [(''id'', PInt 3), (''v'', PFloat (Finite 1))]]),
          (PFloat NaN, [PDict [(''id'', PInt 2), (''v'', PFloat NaN)]])]))
     \<noteq> mset nan_rows
   \<and> py_sorted fst [(PFloat (Finite 1), 1 :: nat), (PFloat NaN, 2), (PFloat (Finite 1), 3)]
     = [(PFloat (Finite 1), 1), (PFloat NaN, 2), (PFloat (Finite 1), 3)]"
proof (intro conjI)
  show "mset (concat (map snd
         [(PFloat (Finite 1), [PDict [(''id'', PInt 3), (''v'', PFloat (Finite 1))]]),
          (PFloat NaN, [PDict [(''id'', PInt 2), (''v'', PFloat NaN)]])]))
     \<noteq> mset nan_rows"
    by (simp add: nan_rows_def)
qed code_simp+

end
